theory Spec2Isabelle
  imports Complex_Main "HOL-Library.Word" "HOL-Library.Log_Nat"
begin

section \<open>Numeric conventions\<close>

text \<open>
  The functions of \<open>Transform\<close> are written once, for any number type with the
  operations they use. The code runs them on \<open>float\<close>, which is the type \<open>float32\<close>
  below: every operation rounds its exact result to binary32. The same functions on a
  field are the algebra the code is meant to perform. \<open>Rect<T>\<close> is a template and is
  polymorphic in the same way.

  The functions of \<open>Angle\<close> are modelled over the reals. The conversion
  \<open>static_cast<int>\<close> of a \<open>float\<close> truncates towards zero, and it is undefined in C++
  as soon as the truncated value does not fit a 32-bit \<open>int\<close>. That case is a branch
  of the model. So is a failed \<open>assert\<close>.
\<close>

datatype error = AssertionFailed | CastOutOfRange

definition static_cast_int :: "real \<Rightarrow> error + int" where
  "static_cast_int v =
     (let t = (if 0 \<le> v then \<lfloor>v\<rfloor> else \<lceil>v\<rceil>)
      in if - 2147483648 \<le> t \<and> t \<le> 2147483647 then Inr t else Inl CastOutOfRange)"

section \<open>binary32\<close>

text \<open>
  A \<open>float\<close> is a finite number, an infinity or NaN. The result of an operation on
  finite numbers is its exact result rounded to the nearest binary32 number, ties to
  the even significand: 24 significant bits, least exponent \<open>-126\<close> (so the spacing
  never falls below \<open>2 ^ -149\<close>), and infinity from \<open>2 ^ 128\<close> on. No operation is
  fused with another. Zero has a single representation: the sign of a zero shows only
  in a division by zero, which none of the functions below performs.
\<close>

datatype float32 = Finite real | PlusInfinity | MinusInfinity | NaN

definition roundTiesToEven :: "real \<Rightarrow> int" where
  "roundTiesToEven v =
     (let n = \<lfloor>v\<rfloor>; d = v - of_int n
      in if d < 1 / 2 then n else if 1 / 2 < d then n + 1 else if even n then n else n + 1)"

text \<open>The exponent \<open>e\<close> of a number other than zero: \<open>2 ^ e \<le> \<bar>v\<bar> < 2 ^ (e + 1)\<close>.\<close>

definition exponent_of :: "real \<Rightarrow> int" where
  "exponent_of v =
     (if 1 \<le> \<bar>v\<bar> then bitlen \<lfloor>\<bar>v\<bar>\<rfloor> - 1 else - bitlen (\<lceil>1 / \<bar>v\<bar>\<rceil> - 1))"

definition round32 :: "real \<Rightarrow> float32" where
  "round32 v =
     (if v = 0 then Finite 0
      else
        let e = max (exponent_of v) (- 126);
            ulp = (if 23 \<le> e then 2 ^ nat (e - 23) else 1 / 2 ^ nat (23 - e));
            w = of_int (roundTiesToEven (v / ulp)) * ulp
        in if 2 ^ 128 \<le> \<bar>w\<bar> then (if 0 < v then PlusInfinity else MinusInfinity)
           else Finite w)"

definition infinity :: "bool \<Rightarrow> float32" where
  "infinity positive = (if positive then PlusInfinity else MinusInfinity)"

fun fneg :: "float32 \<Rightarrow> float32" where
  "fneg (Finite v) = Finite (- v)"
| "fneg PlusInfinity = MinusInfinity"
| "fneg MinusInfinity = PlusInfinity"
| "fneg NaN = NaN"

fun fadd :: "float32 \<Rightarrow> float32 \<Rightarrow> float32" where
  "fadd (Finite u) (Finite v) = round32 (u + v)"
| "fadd NaN _ = NaN"
| "fadd _ NaN = NaN"
| "fadd PlusInfinity MinusInfinity = NaN"
| "fadd MinusInfinity PlusInfinity = NaN"
| "fadd PlusInfinity _ = PlusInfinity"
| "fadd _ PlusInfinity = PlusInfinity"
| "fadd MinusInfinity _ = MinusInfinity"
| "fadd _ MinusInfinity = MinusInfinity"

fun fmul :: "float32 \<Rightarrow> float32 \<Rightarrow> float32" where
  "fmul (Finite u) (Finite v) = round32 (u * v)"
| "fmul NaN _ = NaN"
| "fmul _ NaN = NaN"
| "fmul (Finite u) PlusInfinity = (if u = 0 then NaN else infinity (0 < u))"
| "fmul (Finite u) MinusInfinity = (if u = 0 then NaN else infinity (u < 0))"
| "fmul PlusInfinity (Finite v) = (if v = 0 then NaN else infinity (0 < v))"
| "fmul MinusInfinity (Finite v) = (if v = 0 then NaN else infinity (v < 0))"
| "fmul PlusInfinity PlusInfinity = PlusInfinity"
| "fmul MinusInfinity MinusInfinity = PlusInfinity"
| "fmul PlusInfinity MinusInfinity = MinusInfinity"
| "fmul MinusInfinity PlusInfinity = MinusInfinity"

fun fdiv :: "float32 \<Rightarrow> float32 \<Rightarrow> float32" where
  "fdiv (Finite u) (Finite v) =
     (if v = 0 then (if u = 0 then NaN else infinity (0 < u)) else round32 (u / v))"
| "fdiv NaN _ = NaN"
| "fdiv _ NaN = NaN"
| "fdiv (Finite u) PlusInfinity = Finite 0"
| "fdiv (Finite u) MinusInfinity = Finite 0"
| "fdiv PlusInfinity (Finite v) = infinity (0 \<le> v)"
| "fdiv MinusInfinity (Finite v) = infinity (v < 0)"
| "fdiv PlusInfinity PlusInfinity = NaN"
| "fdiv PlusInfinity MinusInfinity = NaN"
| "fdiv MinusInfinity PlusInfinity = NaN"
| "fdiv MinusInfinity MinusInfinity = NaN"

instantiation float32 :: "{zero,one,plus,minus,uminus,times,inverse}"
begin

definition zero_float32 :: float32 where
  "zero_float32 = Finite 0"

definition one_float32 :: float32 where
  "one_float32 = Finite 1"

definition plus_float32 :: "float32 \<Rightarrow> float32 \<Rightarrow> float32" where
  "plus_float32 u v = fadd u v"

definition minus_float32 :: "float32 \<Rightarrow> float32 \<Rightarrow> float32" where
  "minus_float32 u v = fadd u (fneg v)"

definition uminus_float32 :: "float32 \<Rightarrow> float32" where
  "uminus_float32 u = fneg u"

definition times_float32 :: "float32 \<Rightarrow> float32 \<Rightarrow> float32" where
  "times_float32 u v = fmul u v"

definition divide_float32 :: "float32 \<Rightarrow> float32 \<Rightarrow> float32" where
  "divide_float32 u v = fdiv u v"

definition inverse_float32 :: "float32 \<Rightarrow> float32" where
  "inverse_float32 u = fdiv (Finite 1) u"

instance ..

end

section \<open>Angle\<close>

record Angle =
  m_degrees :: real

text \<open>\<open>priv::positiveRemainder\<close>, with its assertion and its cast.\<close>

definition positiveRemainder :: "real \<Rightarrow> real \<Rightarrow> error + real" where
  "positiveRemainder a b =
     (if \<not> b > 0 then Inl AssertionFailed
      else case static_cast_int (a / b) of
             Inl e \<Rightarrow> Inl e
           | Inr q \<Rightarrow>
               (let val = a - of_int q * b
                in if val \<ge> 0 then Inr val else Inr (val + b)))"

text \<open>
  Modelled from the spec: \<open>sf::degrees\<close> is only declared in the header
  (``construct an angle value from a number of degrees''); it stores its argument.
\<close>

definition degrees :: "real \<Rightarrow> Angle" where
  "degrees angle = \<lparr>m_degrees = angle\<rparr>"

definition asDegrees :: "Angle \<Rightarrow> real" where
  "asDegrees A = m_degrees A"

definition wrapSigned :: "Angle \<Rightarrow> error + Angle" where
  "wrapSigned A =
     (case positiveRemainder (m_degrees A + 180) 360 of
        Inl e \<Rightarrow> Inl e
      | Inr v \<Rightarrow> Inr (degrees (v - 180)))"

text \<open>
  Modelled from the spec: \<open>Angle::wrapUnsigned\<close> is only declared in the header
  (``wrap to a range such that 0 <= angle < 360''); the model is the sibling of
  \<open>wrapSigned\<close> without the half-turn shift.
\<close>

definition wrapUnsigned :: "Angle \<Rightarrow> error + Angle" where
  "wrapUnsigned A =
     (case positiveRemainder (m_degrees A) 360 of
        Inl e \<Rightarrow> Inl e
      | Inr v \<Rightarrow> Inr (degrees v))"

text \<open>
  Modelled from the spec: \<open>operator%(Angle, Angle)\<close> is only declared in the header.
  In the spec's words it requires a strictly positive right-hand operand and always
  returns the non-negative remainder, Euclidean-style and not truncating; a
  non-positive right-hand operand is a precondition violation, to be asserted.
\<close>

definition angle_mod :: "Angle \<Rightarrow> Angle \<Rightarrow> error + Angle" where
  "angle_mod lhs rhs =
     (if \<not> asDegrees rhs > 0 then Inl AssertionFailed
      else Inr (degrees (asDegrees lhs -
                         of_int \<lfloor>asDegrees lhs / asDegrees rhs\<rfloor> * asDegrees rhs)))"

section \<open>Vector2\<close>

record 'a Vector2 =
  x :: 'a
  y :: 'a

definition Vector2_neg :: "'a::uminus Vector2 \<Rightarrow> 'a Vector2" where
  "Vector2_neg right = \<lparr>x = - x right, y = - y right\<rparr>"

section \<open>Transform\<close>

text \<open>
  The member \<open>float m_matrix[16]\<close>: field \<open>mk\<close> is \<open>m_matrix[k]\<close>. The entries are of
  type \<open>float32\<close> in the code.
\<close>

record 'a Transform =
  m0 :: 'a  m1 :: 'a  m2 :: 'a  m3 :: 'a
  m4 :: 'a  m5 :: 'a  m6 :: 'a  m7 :: 'a
  m8 :: 'a  m9 :: 'a  m10 :: 'a  m11 :: 'a
  m12 :: 'a  m13 :: 'a  m14 :: 'a  m15 :: 'a

text \<open>The default member initialiser, which is also \<open>Transform::Identity\<close>.\<close>

definition Identity :: "'a::{zero,one} Transform" where
  "Identity =
     \<lparr>m0 = 1, m1 = 0, m2 = 0, m3 = 0,
      m4 = 0, m5 = 1, m6 = 0, m7 = 0,
      m8 = 0, m9 = 0, m10 = 1, m11 = 0,
      m12 = 0, m13 = 0, m14 = 0, m15 = 1\<rparr>"

text \<open>The constructor from the nine entries of a 3x3 matrix.\<close>

definition Transform ::
  "'a::{zero,one} \<Rightarrow> 'a \<Rightarrow> 'a \<Rightarrow> 'a \<Rightarrow> 'a \<Rightarrow> 'a \<Rightarrow> 'a \<Rightarrow> 'a \<Rightarrow> 'a \<Rightarrow> 'a Transform" where
  "Transform a00 a01 a02 a10 a11 a12 a20 a21 a22 =
     \<lparr>m0 = a00, m1 = a10, m2 = 0, m3 = a20,
      m4 = a01, m5 = a11, m6 = 0, m7 = a21,
      m8 = 0, m9 = 0, m10 = 1, m11 = 0,
      m12 = a02, m13 = a12, m14 = 0, m15 = a22\<rparr>"

text \<open>The local \<open>det\<close> of \<open>Transform::getInverse\<close>.\<close>

definition det :: "'a::{plus,minus,times} Transform \<Rightarrow> 'a" where
  "det t =
     m0 t * (m15 t * m5 t - m7 t * m13 t) -
     m1 t * (m15 t * m4 t - m7 t * m12 t) +
     m3 t * (m13 t * m4 t - m5 t * m12 t)"

definition getInverse ::
  "'a::{zero,one,plus,minus,uminus,times,inverse} Transform \<Rightarrow> 'a Transform" where
  "getInverse t =
     (if det t \<noteq> 0 then
        Transform
          ((m15 t * m5 t - m7 t * m13 t) / det t)
          (- (m15 t * m4 t - m7 t * m12 t) / det t)
          ((m13 t * m4 t - m5 t * m12 t) / det t)
          (- (m15 t * m1 t - m3 t * m13 t) / det t)
          ((m15 t * m0 t - m3 t * m12 t) / det t)
          (- (m13 t * m0 t - m1 t * m12 t) / det t)
          ((m7 t * m1 t - m3 t * m5 t) / det t)
          (- (m7 t * m0 t - m3 t * m4 t) / det t)
          ((m5 t * m0 t - m1 t * m4 t) / det t)
      else Identity)"

definition transformPoint :: "'a::{plus,times} Transform \<Rightarrow> 'a Vector2 \<Rightarrow> 'a Vector2" where
  "transformPoint t point =
     \<lparr>x = m0 t * x point + m4 t * y point + m12 t,
      y = m1 t * x point + m5 t * y point + m13 t\<rparr>"

text \<open>
  \<open>combine\<close> assigns to \<open>*this\<close> and returns it; the model returns the new value.
\<close>

definition combine :: "'a::{zero,one,plus,times} Transform \<Rightarrow> 'a Transform \<Rightarrow> 'a Transform" where
  "combine t transform =
     Transform
       (m0 t * m0 transform + m4 t * m1 transform + m12 t * m3 transform)
       (m0 t * m4 transform + m4 t * m5 transform + m12 t * m7 transform)
       (m0 t * m12 transform + m4 t * m13 transform + m12 t * m15 transform)
       (m1 t * m0 transform + m5 t * m1 transform + m13 t * m3 transform)
       (m1 t * m4 transform + m5 t * m5 transform + m13 t * m7 transform)
       (m1 t * m12 transform + m5 t * m13 transform + m13 t * m15 transform)
       (m3 t * m0 transform + m7 t * m1 transform + m15 t * m3 transform)
       (m3 t * m4 transform + m7 t * m5 transform + m15 t * m7 transform)
       (m3 t * m12 transform + m7 t * m13 transform + m15 t * m15 transform)"

definition translate :: "'a::{zero,one,plus,times} Transform \<Rightarrow> 'a Vector2 \<Rightarrow> 'a Transform" where
  "translate t offset =
     combine t (Transform 1 0 (x offset)
                          0 1 (y offset)
                          0 0 1)"

definition scale :: "'a::{zero,one,plus,times} Transform \<Rightarrow> 'a Vector2 \<Rightarrow> 'a Transform" where
  "scale t factors =
     combine t (Transform (x factors) 0 0
                          0 (y factors) 0
                          0 0 1)"

text \<open>The overload \<open>scale(factors, center)\<close>.\<close>

definition scale_center ::
  "'a::{zero,one,plus,minus,times} Transform \<Rightarrow> 'a Vector2 \<Rightarrow> 'a Vector2 \<Rightarrow> 'a Transform" where
  "scale_center t factors center =
     combine t (Transform (x factors) 0 (x center * (1 - x factors))
                          0 (y factors) (y center * (1 - y factors))
                          0 0 1)"

section \<open>Rect\<close>

text \<open>
  \<open>Rect<T>\<close> is a template; the model is polymorphic in the coordinate type, which
  needs only the operations the code uses. The two local lambdas \<open>min\<close> and \<open>max\<close>
  of \<open>contains\<close> and \<open>findIntersection\<close> are \<open>lambda_min\<close> and \<open>lambda_max\<close>.
\<close>

record 'a Rect =
  left :: 'a
  top' :: 'a
  width :: 'a
  height :: 'a

definition lambda_min :: "'a::ord \<Rightarrow> 'a \<Rightarrow> 'a" where
  "lambda_min a b = (if a < b then a else b)"

definition lambda_max :: "'a::ord \<Rightarrow> 'a \<Rightarrow> 'a" where
  "lambda_max a b = (if a < b then b else a)"

definition contains :: "'a::{ord,plus} Rect \<Rightarrow> 'a Vector2 \<Rightarrow> bool" where
  "contains rect point =
     (let minX = lambda_min (left rect) (left rect + width rect);
          maxX = lambda_max (left rect) (left rect + width rect);
          minY = lambda_min (top' rect) (top' rect + height rect);
          maxY = lambda_max (top' rect) (top' rect + height rect)
      in (x point \<ge> minX) \<and> (x point < maxX) \<and> (y point \<ge> minY) \<and> (y point < maxY))"

definition findIntersection :: "'a::{ord,plus,minus} Rect \<Rightarrow> 'a Rect \<Rightarrow> 'a Rect option" where
  "findIntersection rect rectangle =
     (let r1MinX = lambda_min (left rect) (left rect + width rect);
          r1MaxX = lambda_max (left rect) (left rect + width rect);
          r1MinY = lambda_min (top' rect) (top' rect + height rect);
          r1MaxY = lambda_max (top' rect) (top' rect + height rect);
          r2MinX = lambda_min (left rectangle) (left rectangle + width rectangle);
          r2MaxX = lambda_max (left rectangle) (left rectangle + width rectangle);
          r2MinY = lambda_min (top' rectangle) (top' rectangle + height rectangle);
          r2MaxY = lambda_max (top' rectangle) (top' rectangle + height rectangle);
          interLeft = lambda_max r1MinX r2MinX;
          interTop = lambda_max r1MinY r2MinY;
          interRight = lambda_min r1MaxX r2MaxX;
          interBottom = lambda_min r1MaxY r2MaxY
      in if (interLeft < interRight) \<and> (interTop < interBottom)
         then Some \<lparr>left = interLeft, top' = interTop,
                     width = interRight - interLeft, height = interBottom - interTop\<rparr>
         else None)"

section \<open>Color\<close>

record Color =
  r :: "8 word"
  g :: "8 word"
  b :: "8 word"
  a :: "8 word"

text \<open>
  The lambdas of the three operators. \<open>intResult\<close> is an \<open>int\<close> between \<open>-255\<close>
  and \<open>510\<close>; \<open>uint16Result\<close> is a 16-bit value.
\<close>

definition clampedAdd :: "8 word \<Rightarrow> 8 word \<Rightarrow> 8 word" where
  "clampedAdd lhs rhs =
     (let intResult = uint lhs + uint rhs
      in word_of_int (if intResult < 255 then intResult else 255))"

definition clampedSub :: "8 word \<Rightarrow> 8 word \<Rightarrow> 8 word" where
  "clampedSub lhs rhs =
     (let intResult = uint lhs - uint rhs
      in word_of_int (if intResult > 0 then intResult else 0))"

definition scaledMul :: "8 word \<Rightarrow> 8 word \<Rightarrow> 8 word" where
  "scaledMul lhs rhs =
     (let uint16Result = (ucast lhs :: 16 word) * (ucast rhs :: 16 word)
      in ucast (uint16Result div 255))"

definition Color_add :: "Color \<Rightarrow> Color \<Rightarrow> Color" where
  "Color_add lhs rhs =
     \<lparr>r = clampedAdd (r lhs) (r rhs), g = clampedAdd (g lhs) (g rhs),
      b = clampedAdd (b lhs) (b rhs), a = clampedAdd (a lhs) (a rhs)\<rparr>"

definition Color_sub :: "Color \<Rightarrow> Color \<Rightarrow> Color" where
  "Color_sub lhs rhs =
     \<lparr>r = clampedSub (r lhs) (r rhs), g = clampedSub (g lhs) (g rhs),
      b = clampedSub (b lhs) (b rhs), a = clampedSub (a lhs) (a rhs)\<rparr>"

definition Color_mul :: "Color \<Rightarrow> Color \<Rightarrow> Color" where
  "Color_mul lhs rhs =
     \<lparr>r = scaledMul (r lhs) (r rhs), g = scaledMul (g lhs) (g rhs),
      b = scaledMul (b lhs) (b rhs), a = scaledMul (a lhs) (a rhs)\<rparr>"

definition Cyan :: Color where
  "Cyan = \<lparr>r = 0, g = 255, b = 255, a = 255\<rparr>"

section \<open>The application\<close>

text \<open>
  Modelled from the spec: the window class is only declared in the header. From its
  documentation: a constructed window is open; \<open>close\<close> closes it and \<open>isOpen\<close>
  tells whether it has been closed; \<open>pollEvent\<close> pops the next event from the front
  of the FIFO event queue, if any. \<open>clear\<close>, \<open>draw\<close> and \<open>display\<close> are recorded
  in the order in which the program calls them.
\<close>

datatype EventType =
    Closed | Resized | LostFocus | GainedFocus | TextEntered | KeyPressed | KeyReleased
  | MouseWheelScrolled | MouseButtonPressed | MouseButtonReleased | MouseMoved
  | MouseEntered | MouseLeft | JoystickButtonPressed | JoystickButtonReleased
  | JoystickMoved | JoystickConnected | JoystickDisconnected
  | TouchBegan | TouchMoved | TouchEnded | SensorChanged | Count

record Event =
  type :: EventType

datatype Call = Clear Color | Draw | Display

record RenderWindow =
  is_open :: bool
  events :: "Event list"
  calls :: "Call list"

definition RenderWindow :: RenderWindow where
  "RenderWindow = \<lparr>is_open = True, events = [], calls = []\<rparr>"

definition close :: "RenderWindow \<Rightarrow> RenderWindow" where
  "close window = window\<lparr>is_open := False\<rparr>"

definition isOpen :: "RenderWindow \<Rightarrow> bool" where
  "isOpen window = is_open window"

definition pollEvent :: "RenderWindow \<Rightarrow> Event option \<times> RenderWindow" where
  "pollEvent window =
     (case events window of
        [] \<Rightarrow> (None, window)
      | event # rest \<Rightarrow> (Some event, window\<lparr>events := rest\<rparr>))"

definition clear :: "Color \<Rightarrow> RenderWindow \<Rightarrow> RenderWindow" where
  "clear color window = window\<lparr>calls := calls window @ [Clear color]\<rparr>"

definition draw :: "RenderWindow \<Rightarrow> RenderWindow" where
  "draw window = window\<lparr>calls := calls window @ [Draw]\<rparr>"

definition display :: "RenderWindow \<Rightarrow> RenderWindow" where
  "display window = window\<lparr>calls := calls window @ [Display]\<rparr>"

text \<open>The inner loop of \<open>main\<close>: it runs until the event queue is empty.\<close>

function pollLoop :: "RenderWindow \<Rightarrow> RenderWindow" where
  "pollLoop window =
     (case pollEvent window of
        (None, window') \<Rightarrow> window'
      | (Some event, window') \<Rightarrow>
          pollLoop (if type event = Closed then close window' else window'))"
  by pat_completeness auto
termination
  by (relation "measure (\<lambda>window. length (events window))")
     (auto simp: pollEvent_def close_def split: list.splits)

text \<open>
  The outer loop of \<open>main\<close>. Its input lists, frame by frame, the events that reach
  the queue before that frame's polling. The loop has no bound of its own: when the
  input ends while the window is still open, the run is undetermined (\<open>None\<close>).
\<close>

fun renderLoop :: "Event list list \<Rightarrow> RenderWindow \<Rightarrow> RenderWindow option" where
  "renderLoop [] window = (if isOpen window then None else Some window)"
| "renderLoop (arrived # later) window =
     (if isOpen window
      then renderLoop later
             (display (draw (clear Cyan (pollLoop (window\<lparr>events := events window @ arrived\<rparr>)))))
      else Some window)"

text \<open>
  \<open>main\<close> of \<open>game.cpp\<close>. \<open>loaded\<close> is the result of \<open>loadFromFile\<close>; the sprite
  setters act on the sprite only. The result is the returned exit status and the
  window at that moment.
\<close>

definition main :: "bool \<Rightarrow> Event list list \<Rightarrow> (int \<times> RenderWindow) option" where
  "main loaded arrivals =
     (let window = RenderWindow;
          window = (if \<not> loaded then close window else window)
      in case renderLoop arrivals window of
           None \<Rightarrow> None
         | Some window' \<Rightarrow> Some (0, window'))"

section \<open>binary32: the exponent\<close>

lemma real_of_int_pow_le:
  fixes m :: int
  assumes "2 ^ n \<le> m"
  shows "(2::real) ^ n \<le> real_of_int m"
proof -
  from assms have "real_of_int (2 ^ n) \<le> real_of_int m" by (simp only: of_int_le_iff)
  then show ?thesis by simp
qed

lemma real_of_int_le_pow:
  fixes m :: int
  assumes "m \<le> 2 ^ n"
  shows "real_of_int m \<le> (2::real) ^ n"
proof -
  from assms have "real_of_int m \<le> real_of_int (2 ^ n)" by (simp only: of_int_le_iff)
  then show ?thesis by simp
qed

lemma exponent_of_large:
  assumes "1 \<le> \<bar>v\<bar>"
  shows "2 ^ nat (exponent_of v) \<le> \<bar>v\<bar> \<and> \<bar>v\<bar> < 2 * 2 ^ nat (exponent_of v) \<and> 0 \<le> exponent_of v"
proof -
  define m where "m = \<lfloor>\<bar>v\<bar>\<rfloor>"
  define k where "k = nat (bitlen m - 1)"
  have m: "0 < m" using assms by (simp add: m_def)
  have e: "exponent_of v = bitlen m - 1" using assms by (simp add: exponent_of_def m_def)
  from m have b1: "1 \<le> bitlen m" by (simp add: bitlen_alt_def)
  then have suc: "nat (bitlen m) = Suc k" by (simp add: k_def)
  from bitlen_bounds [OF m] have lo: "2 ^ k \<le> m" and hi: "m < 2 ^ Suc k"
    by (simp_all only: k_def [symmetric] suc)
  from hi have "m + 1 \<le> 2 ^ Suc k" by linarith
  then have hi': "real_of_int (m + 1) \<le> 2 ^ Suc k" by (rule real_of_int_le_pow)
  have lo': "(2::real) ^ k \<le> real_of_int m" using lo by (rule real_of_int_pow_le)
  have fl: "real_of_int m \<le> \<bar>v\<bar>" "\<bar>v\<bar> < real_of_int m + 1" by (simp_all add: m_def)
  have "2 ^ k \<le> \<bar>v\<bar>" using lo' fl by linarith
  moreover have "\<bar>v\<bar> < 2 * 2 ^ k" using hi' fl by simp
  moreover have "nat (exponent_of v) = k" "0 \<le> exponent_of v" using b1 by (simp_all add: e k_def)
  ultimately show ?thesis by simp
qed

lemma exponent_of_small:
  assumes "v \<noteq> 0" and "\<bar>v\<bar> < 1"
  shows "1 / 2 ^ nat (- exponent_of v) \<le> \<bar>v\<bar> \<and> \<bar>v\<bar> < 2 / 2 ^ nat (- exponent_of v) \<and>
         exponent_of v < 0"
proof -
  define c where "c = \<lceil>1 / \<bar>v\<bar>\<rceil>"
  define m where "m = c - 1"
  define k where "k = nat (bitlen m - 1)"
  have pos: "0 < \<bar>v\<bar>" using assms by simp
  then have gt1: "1 < 1 / \<bar>v\<bar>" using assms by (simp add: field_simps)
  then have "1 < c" unfolding c_def by (simp add: less_ceiling_iff)
  then have m: "0 < m" by (simp add: m_def)
  have e: "exponent_of v = - bitlen m" using assms by (simp add: exponent_of_def m_def c_def)
  from m have b1: "1 \<le> bitlen m" by (simp add: bitlen_alt_def)
  then have suc: "nat (bitlen m) = Suc k" by (simp add: k_def)
  from bitlen_bounds [OF m] have lo: "2 ^ k \<le> m" and hi: "m < 2 ^ Suc k"
    by (simp_all only: k_def [symmetric] suc)
  from hi have "c \<le> 2 ^ Suc k" by (simp add: m_def)
  then have "real_of_int c \<le> 2 ^ Suc k" by (rule real_of_int_le_pow)
  moreover have "1 / \<bar>v\<bar> \<le> real_of_int c" by (simp add: c_def)
  ultimately have "1 / \<bar>v\<bar> \<le> 2 ^ Suc k" by linarith
  then have "1 \<le> 2 ^ Suc k * \<bar>v\<bar>" using pos by (simp add: pos_divide_le_eq)
  then have a: "1 / 2 ^ Suc k \<le> \<bar>v\<bar>" by (simp add: pos_divide_le_eq mult.commute)
  have "(2::real) ^ k \<le> real_of_int m" using lo by (rule real_of_int_pow_le)
  moreover have "real_of_int m < 1 / \<bar>v\<bar>" unfolding m_def c_def by linarith
  ultimately have "2 ^ k < 1 / \<bar>v\<bar>" by linarith
  then have "2 ^ k * \<bar>v\<bar> < 1" using pos by (simp add: pos_less_divide_eq)
  then have "\<bar>v\<bar> * 2 ^ k < 1" by (simp add: mult.commute)
  then have "\<bar>v\<bar> < 1 / 2 ^ k" by (simp add: pos_less_divide_eq)
  then have b: "\<bar>v\<bar> < 2 / 2 ^ Suc k" by simp
  have "nat (- exponent_of v) = Suc k" "exponent_of v < 0" using b1 by (simp_all add: e suc)
  with a b show ?thesis by simp
qed

section \<open>Angle: the cast and the positive remainder\<close>

lemma static_cast_int_trunc:
  assumes "static_cast_int v = Inr q"
  shows "(0 \<le> v \<longrightarrow> of_int q \<le> v \<and> v < of_int q + 1) \<and>
         (v < 0 \<longrightarrow> v \<le> of_int q \<and> of_int q < v + 1)"
  using assms by (auto simp: static_cast_int_def Let_def split: if_splits) linarith+

lemma static_cast_int_defined:
  assumes "\<bar>v\<bar> < 2147483648"
  shows "\<exists>q. static_cast_int v = Inr q"
proof -
  have "0 \<le> v \<Longrightarrow> - 2147483648 \<le> \<lfloor>v\<rfloor> \<and> \<lfloor>v\<rfloor> \<le> 2147483647"
    using assms by linarith
  moreover have "v < 0 \<Longrightarrow> - 2147483648 \<le> \<lceil>v\<rceil> \<and> \<lceil>v\<rceil> \<le> 2147483647"
    using assms by linarith
  ultimately show ?thesis
    by (simp add: static_cast_int_def Let_def not_le)
qed

lemma static_cast_int_overflow:
  assumes "2147483648 \<le> \<bar>v\<bar> - 1"
  shows "static_cast_int v = Inl CastOutOfRange"
proof -
  have "0 \<le> v \<Longrightarrow> 2147483647 < \<lfloor>v\<rfloor>"
    using assms by linarith
  moreover have "v < 0 \<Longrightarrow> \<lceil>v\<rceil> < - 2147483648"
    using assms by linarith
  ultimately show ?thesis
    by (auto simp: static_cast_int_def Let_def not_le)
qed

lemma quotient_bounds:
  fixes num den :: real
  assumes "0 < den"
  shows "(of_int q \<le> num / den) = (of_int q * den \<le> num)"
    and "(num / den < of_int q + 1) = (num < of_int q * den + den)"
    and "(num / den \<le> of_int q) = (num \<le> of_int q * den)"
    and "(of_int q < num / den + 1) = (of_int q * den < num + den)"
    and "(0 \<le> num / den) = (0 \<le> num)"
    and "(num / den < 0) = (num < 0)"
  using assms by (simp_all add: field_simps)

lemma positiveRemainder_range:
  assumes "positiveRemainder num den = Inr v"
  shows "0 \<le> v \<and> v < den \<and> (\<exists>k::int. num = v + of_int k * den)"
proof -
  from assms have den: "0 < den"
    by (simp add: positiveRemainder_def split: if_splits)
  from assms den obtain q where q: "static_cast_int (num / den) = Inr q"
    by (auto simp: positiveRemainder_def split: sum.splits)
  from assms den q
  have v: "v = (if num - of_int q * den \<ge> 0 then num - of_int q * den
                else num - of_int q * den + den)"
    by (auto simp: positiveRemainder_def Let_def split: if_splits)
  note t = static_cast_int_trunc [OF q, unfolded quotient_bounds [OF den]]
  show ?thesis
  proof (cases "num - of_int q * den \<ge> 0")
    case True
    with v have e: "v = num - of_int q * den" by simp
    have "num = v + of_int q * den" using e by simp
    moreover have "0 \<le> v" using True e by simp
    moreover have "v < den" using t True e by (cases "0 \<le> num") (auto simp: not_le)
    ultimately show ?thesis by blast
  next
    case False
    with v have e: "v = num - of_int q * den + den" by simp
    have "num = v + of_int (q - 1) * den" using e by (simp add: algebra_simps)
    moreover have "0 \<le> v \<and> v < den" using t False e by (cases "0 \<le> num") (auto simp: not_le)
    ultimately show ?thesis by blast
  qed
qed

lemma positiveRemainder_defined:
  assumes "0 < den" and "\<bar>num / den\<bar> < 2147483648"
  shows "\<exists>v. positiveRemainder num den = Inr v"
proof -
  from static_cast_int_defined [OF assms(2)]
  obtain q where "static_cast_int (num / den) = Inr q" ..
  with assms(1) show ?thesis
    by (simp add: positiveRemainder_def Let_def)
qed

lemma positiveRemainder_assert:
  "den \<le> 0 \<Longrightarrow> positiveRemainder num den = Inl AssertionFailed"
  by (simp add: positiveRemainder_def)

lemma positiveRemainder_overflow:
  assumes "0 < den" and "2147483648 \<le> \<bar>num / den\<bar> - 1"
  shows "positiveRemainder num den = Inl CastOutOfRange"
  using assms(1) static_cast_int_overflow [OF assms(2)]
  by (simp add: positiveRemainder_def)

text \<open>
  Where the quotient fits an \<open>int\<close>, the wrap functions over the reals do what their
  documentation says.
\<close>

lemma wrapSigned_in_range:
  assumes "\<bar>(m_degrees A + 180) / 360\<bar> < 2147483648"
  shows "\<exists>v. wrapSigned A = Inr (degrees v) \<and> - 180 \<le> v \<and> v < 180 \<and>
             (\<exists>k::int. m_degrees A = v + of_int k * 360)"
proof -
  from positiveRemainder_defined [OF _ assms]
  obtain w where w: "positiveRemainder (m_degrees A + 180) 360 = Inr w" by auto
  from positiveRemainder_range [OF w]
  obtain k :: int where "0 \<le> w" "w < 360" "m_degrees A + 180 = w + of_int k * 360" by auto
  then have "- 180 \<le> w - 180 \<and> w - 180 < 180 \<and> m_degrees A = (w - 180) + of_int k * 360"
    by simp
  moreover have "wrapSigned A = Inr (degrees (w - 180))"
    by (simp add: wrapSigned_def w)
  ultimately show ?thesis by blast
qed

lemma wrapUnsigned_in_range:
  assumes "\<bar>m_degrees A / 360\<bar> < 2147483648"
  shows "\<exists>v. wrapUnsigned A = Inr (degrees v) \<and> 0 \<le> v \<and> v < 360 \<and>
             (\<exists>k::int. m_degrees A = v + of_int k * 360)"
proof -
  from positiveRemainder_defined [OF _ assms]
  obtain w where w: "positiveRemainder (m_degrees A) 360 = Inr w" by auto
  from positiveRemainder_range [OF w]
  obtain k :: int where "0 \<le> w" "w < 360" "m_degrees A = w + of_int k * 360" by auto
  moreover have "wrapUnsigned A = Inr (degrees w)"
    by (simp add: wrapUnsigned_def w)
  ultimately show ?thesis by blast
qed

lemma wrapSigned_270: "wrapSigned (degrees 270) = Inr (degrees (- 90))"
  by (simp add: wrapSigned_def positiveRemainder_def static_cast_int_def degrees_def)

text \<open>
  C5: \<open>wrapSigned\<close> is documented to return, for every angle, the equivalent angle in
  \<open>[-180, 180)\<close>. At \<open>2 ^ 40\<close> degrees the quotient \<open>(a + 180) / 360\<close> is beyond the
  range of \<open>int\<close>: the cast in \<open>positiveRemainder\<close> is undefined there and no wrapped
  angle is produced.
\<close>

theorem wrapSigned_cast_overflow:
  "wrapSigned (degrees 1099511627776) = Inl CastOutOfRange"
  by (simp add: wrapSigned_def positiveRemainder_def static_cast_int_def degrees_def)

text \<open>
  C6: for a strictly positive right-hand angle the modulo is the non-negative,
  Euclidean remainder: it lies in \<open>[0, r)\<close> and differs from the left-hand angle by a
  whole multiple of \<open>r\<close>; a non-positive right-hand angle violates the precondition;
  and \<open>degrees(-90) % degrees(40)\<close> is \<open>degrees(30)\<close>, not \<open>degrees(-10)\<close>.
\<close>

theorem angle_mod_euclidean:
  "(0 < asDegrees R \<longrightarrow>
      (\<exists>v. \<exists>k::int. angle_mod L R = Inr (degrees v) \<and> 0 \<le> v \<and> v < asDegrees R \<and>
         asDegrees L = v + of_int k * asDegrees R)) \<and>
   (asDegrees R \<le> 0 \<longrightarrow> angle_mod L R = Inl AssertionFailed) \<and>
   angle_mod (degrees (- 90)) (degrees 40) = Inr (degrees 30) \<and>
   angle_mod (degrees (- 90)) (degrees 40) \<noteq> Inr (degrees (- 10))"
proof -
  have pos: "\<exists>v. \<exists>k::int. angle_mod L R = Inr (degrees v) \<and> 0 \<le> v \<and> v < asDegrees R \<and>
         asDegrees L = v + of_int k * asDegrees R" if den: "0 < asDegrees R"
  proof -
    define q where "q = \<lfloor>asDegrees L / asDegrees R\<rfloor>"
    define v where "v = asDegrees L - of_int q * asDegrees R"
    have "of_int q \<le> asDegrees L / asDegrees R" "asDegrees L / asDegrees R < of_int q + 1"
      by (simp_all add: q_def)
    then have "of_int q * asDegrees R \<le> asDegrees L"
      "asDegrees L < (of_int q + 1) * asDegrees R"
      using den by (simp_all add: pos_le_divide_eq pos_divide_less_eq)
    then have "0 \<le> v" "v < asDegrees R" by (simp_all add: v_def algebra_simps)
    moreover have "asDegrees L = v + of_int q * asDegrees R" by (simp add: v_def)
    moreover have "angle_mod L R = Inr (degrees v)"
      using den by (simp add: angle_mod_def v_def q_def)
    ultimately show ?thesis by blast
  qed
  have ex: "angle_mod (degrees (- 90)) (degrees 40) = Inr (degrees 30)"
    by (simp add: angle_mod_def degrees_def asDegrees_def)
  have "degrees 30 \<noteq> degrees (- 10)" by (simp add: degrees_def)
  with ex have ne: "angle_mod (degrees (- 90)) (degrees 40) \<noteq> Inr (degrees (- 10))" by simp
  have neg: "asDegrees R \<le> 0 \<longrightarrow> angle_mod L R = Inl AssertionFailed"
    by (simp add: angle_mod_def)
  from pos neg ex ne show ?thesis by blast
qed

theorem angle_mod_euclidean_witness:
  "0 < asDegrees (degrees 40) \<and>
   (\<exists>v. \<exists>k::int. angle_mod (degrees 90) (degrees 40) = Inr (degrees v) \<and> 0 \<le> v \<and> v < 40 \<and>
      90 = v + of_int k * 40) \<and>
   asDegrees (degrees 0) \<le> 0 \<and>
   angle_mod (degrees 7) (degrees 0) = Inl AssertionFailed"
  using angle_mod_euclidean [where L = "degrees 90" and R = "degrees 40"]
    angle_mod_euclidean [where L = "degrees 7" and R = "degrees 0"]
  by (simp add: degrees_def asDegrees_def)

section \<open>Transform: composition and inverse\<close>

text \<open>
  Evaluating the code on \<open>float32\<close> unfolds the operations and the rounding.
\<close>

lemmas float32_eval =
  zero_float32_def one_float32_def plus_float32_def minus_float32_def uminus_float32_def
  times_float32_def divide_float32_def
  round32_def exponent_of_def roundTiesToEven_def Let_def compute_bitlen

text \<open>In exact arithmetic \<open>getInverse\<close> is the inverse for \<open>combine\<close>.\<close>

lemma combine_getInverse_left:
  fixes t :: "'a::field Transform"
  assumes "det t \<noteq> 0"
  shows "combine (getInverse t) t = Identity"
  using assms
  apply (simp add: getInverse_def combine_def Transform_def Identity_def)
  apply (simp add: field_simps)
  apply (simp add: det_def algebra_simps)
  done

lemma combine_getInverse_right:
  fixes t :: "'a::field Transform"
  assumes "det t \<noteq> 0"
  shows "combine t (getInverse t) = Identity"
  using assms
  apply (simp add: getInverse_def combine_def Transform_def Identity_def)
  apply (simp add: field_simps)
  apply (simp add: det_def algebra_simps)
  done

lemma getInverse_zero_det: "det t = 0 \<Longrightarrow> getInverse t = Identity"
  by (simp add: getInverse_def)

text \<open>
  The bottom row \<open>(0, 0, 1)\<close> of an affine transform: the identity has it, and in exact
  arithmetic every operation of the class keeps it.
\<close>

lemma Identity_affine:
  "m3 (Identity :: 'a::{zero,one} Transform) = 0 \<and> m7 (Identity :: 'a Transform) = 0 \<and>
   m15 (Identity :: 'a Transform) = 1"
  by (simp add: Identity_def)

lemma combine_affine:
  fixes A B :: "'a::comm_ring_1 Transform"
  assumes "m3 A = 0" "m7 A = 0" "m15 A = 1" and "m3 B = 0" "m7 B = 0" "m15 B = 1"
  shows "m3 (combine A B) = 0 \<and> m7 (combine A B) = 0 \<and> m15 (combine A B) = 1"
  using assms by (simp add: combine_def Transform_def)

lemma builders_affine:
  fixes t :: "'a::comm_ring_1 Transform"
  assumes "m3 t = 0" "m7 t = 0" "m15 t = 1"
  shows "m3 (translate t offset) = 0 \<and> m7 (translate t offset) = 0 \<and> m15 (translate t offset) = 1"
    and "m3 (scale t factors) = 0 \<and> m7 (scale t factors) = 0 \<and> m15 (scale t factors) = 1"
    and "m3 (scale_center t factors center) = 0 \<and> m7 (scale_center t factors center) = 0 \<and>
         m15 (scale_center t factors center) = 1"
  using assms by (simp_all add: translate_def scale_def scale_center_def combine_def Transform_def)

lemma getInverse_affine:
  fixes t :: "'a::field Transform"
  assumes "m3 t = 0" "m7 t = 0" "m15 t = 1"
  shows "m3 (getInverse t) = 0 \<and> m7 (getInverse t) = 0 \<and> m15 (getInverse t) = 1"
proof (cases "det t = 0")
  case True
  then show ?thesis by (simp add: getInverse_def Identity_def)
next
  case False
  have "det t = m5 t * m0 t - m1 t * m4 t"
    using assms by (simp add: det_def algebra_simps)
  with False show ?thesis
    using assms by (simp add: getInverse_def Transform_def)
qed

text \<open>
  In exact arithmetic the two sides of the composition law differ by the translation
  of the first transform times what the bottom row of the second makes of the point.
\<close>

lemma combine_transformPoint_difference:
  fixes A B :: "'a::comm_ring_1 Transform"
  shows
  "x (transformPoint (combine A B) p) - x (transformPoint A (transformPoint B p)) =
     m12 A * (m3 B * x p + m7 B * y p + (m15 B - 1)) \<and>
   y (transformPoint (combine A B) p) - y (transformPoint A (transformPoint B p)) =
     m13 A * (m3 B * x p + m7 B * y p + (m15 B - 1))"
  by (simp add: transformPoint_def combine_def Transform_def algebra_simps)



text \<open>
  C3: \<open>getInverse\<close> is documented to return the inverse and to fall back to the
  identity when there is none. It decides on the determinant as computed in binary32.
  For the scaling by \<open>2 ^ -100\<close> that determinant underflows to zero, and for the matrix
  with rows \<open>(4097, 4098)\<close> and \<open>(4096, 4097)\<close> the two products round to the same
  number: the code returns the identity for both, although their determinants are
  \<open>2 ^ -200\<close> and 1 and the inverse of the first is the scaling by \<open>2 ^ 100\<close>.
\<close>

theorem getInverse_computed_determinant:
  "getInverse (Transform (Finite (1 / 2 ^ 100)) 0 0 0 (Finite (1 / 2 ^ 100)) 0 0 0 1) = Identity \<and>
   det (Transform (1 / 2 ^ 100) 0 0 0 (1 / 2 ^ 100) 0 0 0 (1::real)) = 1 / 2 ^ 200 \<and>
   getInverse (Transform (1 / 2 ^ 100) 0 0 0 (1 / 2 ^ 100) 0 0 0 (1::real)) =
     Transform (2 ^ 100) 0 0 0 (2 ^ 100) 0 0 0 1 \<and>
   getInverse (Transform (Finite 4097) (Finite 4098) 0 (Finite 4096) (Finite 4097) 0 0 0 1) =
     Identity \<and>
   det (Transform 4097 4098 0 4096 4097 0 0 0 (1::real)) = 1"
proof -
  have "getInverse (Transform (Finite (1 / 2 ^ 100)) 0 0 0 (Finite (1 / 2 ^ 100)) 0 0 0 1) =
      Identity"
    by (simp add: getInverse_def det_def Transform_def float32_eval)
  moreover
  have "getInverse (Transform (Finite 4097) (Finite 4098) 0 (Finite 4096) (Finite 4097) 0 0 0 1) =
      Identity"
    by (simp add: getInverse_def det_def Transform_def float32_eval)
  moreover
  have "det (Transform (1 / 2 ^ 100) 0 0 0 (1 / 2 ^ 100) 0 0 0 (1::real)) = 1 / 2 ^ 200"
    "det (Transform 4097 4098 0 4096 4097 0 0 0 (1::real)) = 1"
    by (simp_all add: det_def Transform_def)
  moreover
  have "getInverse (Transform (1 / 2 ^ 100) 0 0 0 (1 / 2 ^ 100) 0 0 0 (1::real)) =
     Transform (2 ^ 100) 0 0 0 (2 ^ 100) 0 0 0 1"
    by (simp add: getInverse_def det_def Transform_def)
  ultimately show ?thesis by blast
qed

text \<open>
  C4, as stated, fails in binary32: from the identity, with the factors \<open>(3, 3)\<close> and
  the center \<open>(16777215, 16777215)\<close>, the closed form has the translation entry
  \<open>-33554430\<close> and the three-step composition has \<open>-33554428\<close>, because
  \<open>3 * -16777215\<close> and the sum that follows are rounded.
\<close>

theorem scale_center_rounding_counterexample:
  "m12 (scale_center Identity \<lparr>x = Finite 3, y = Finite 3\<rparr>
          \<lparr>x = Finite 16777215, y = Finite 16777215\<rparr>) = Finite (- 33554430) \<and>
   m12 (translate (scale (translate Identity \<lparr>x = Finite 16777215, y = Finite 16777215\<rparr>)
                     \<lparr>x = Finite 3, y = Finite 3\<rparr>)
          (Vector2_neg \<lparr>x = Finite 16777215, y = Finite 16777215\<rparr>)) = Finite (- 33554428)"
  by (simp add: scale_center_def translate_def scale_def combine_def Transform_def Identity_def
      Vector2_neg_def float32_eval)

text \<open>
  C4, amended: in exact arithmetic, scaling about a center with the closed-form matrix
  gives the same transform as translating to the center, scaling about the origin and
  translating back.
\<close>

theorem scale_center_composition:
  fixes t :: "'a::comm_ring_1 Transform"
  shows "scale_center t factors center =
     translate (scale (translate t center) factors) (Vector2_neg center)"
  by (simp add: scale_center_def translate_def scale_def combine_def Transform_def
      Vector2_neg_def algebra_simps)

section \<open>Rect: containment and intersection\<close>

lemma lambda_min_eq: "lambda_min (u::'a::linorder) v = min u v"
  by (auto simp: lambda_min_def min_def)

lemma lambda_max_eq: "lambda_max (u::'a::linorder) v = max u v"
  by (auto simp: lambda_max_def max_def)

lemma contains_iff:
  fixes rect :: "'a::{linorder,plus} Rect"
  shows "contains rect p \<longleftrightarrow>
     min (left rect) (left rect + width rect) \<le> x p \<and>
     x p < max (left rect) (left rect + width rect) \<and>
     min (top' rect) (top' rect + height rect) \<le> y p \<and>
     y p < max (top' rect) (top' rect + height rect)"
  by (simp add: contains_def lambda_min_eq lambda_max_eq Let_def)

lemma findIntersection_eq:
  fixes r1 r2 :: "'a::linordered_idom Rect"
  shows "findIntersection r1 r2 =
     (let interLeft = max (min (left r1) (left r1 + width r1)) (min (left r2) (left r2 + width r2));
          interTop = max (min (top' r1) (top' r1 + height r1)) (min (top' r2) (top' r2 + height r2));
          interRight = min (max (left r1) (left r1 + width r1)) (max (left r2) (left r2 + width r2));
          interBottom = min (max (top' r1) (top' r1 + height r1)) (max (top' r2) (top' r2 + height r2))
      in if 0 < interRight - interLeft \<and> 0 < interBottom - interTop
         then Some \<lparr>left = interLeft, top' = interTop,
                     width = interRight - interLeft, height = interBottom - interTop\<rparr>
         else None)"
  by (simp add: findIntersection_def lambda_min_eq lambda_max_eq Let_def)

lemma contains_positive:
  fixes rect :: "'a::linordered_idom Rect"
  assumes "0 < width rect" "0 < height rect"
  shows "contains rect p \<longleftrightarrow>
     left rect \<le> x p \<and> x p < left rect + width rect \<and>
     top' rect \<le> y p \<and> y p < top' rect + height rect"
  using assms by (simp add: contains_iff min_def max_def)

lemma both_intervals:
  fixes p1 p2 p3 p4 q1 q2 q3 q4 :: "'a::linorder"
  shows "(max p1 p2 \<le> u \<and> u < min p3 p4 \<and> max q1 q2 \<le> v \<and> v < min q3 q4) \<longleftrightarrow>
         ((p1 \<le> u \<and> u < p3 \<and> q1 \<le> v \<and> v < q3) \<and> (p2 \<le> u \<and> u < p4 \<and> q2 \<le> v \<and> v < q4))"
  unfolding max.bounded_iff min_less_iff_conj by blast

text \<open>
  In a linearly ordered ring the rectangle returned by \<open>findIntersection\<close> contains
  exactly the points that both rectangles contain, and no rectangle is returned
  exactly when there is no such point.
\<close>

lemma findIntersection_points:
  fixes r1 r2 :: "'a::linordered_idom Rect"
  assumes "findIntersection r1 r2 = Some r3"
  shows "contains r3 p \<longleftrightarrow> contains r1 p \<and> contains r2 p"
proof -
  define iL where "iL = max (min (left r1) (left r1 + width r1)) (min (left r2) (left r2 + width r2))"
  define iT where "iT = max (min (top' r1) (top' r1 + height r1)) (min (top' r2) (top' r2 + height r2))"
  define iR where "iR = min (max (left r1) (left r1 + width r1)) (max (left r2) (left r2 + width r2))"
  define iB where "iB = min (max (top' r1) (top' r1 + height r1)) (max (top' r2) (top' r2 + height r2))"
  have eq: "findIntersection r1 r2 =
      (if 0 < iR - iL \<and> 0 < iB - iT
       then Some \<lparr>left = iL, top' = iT, width = iR - iL, height = iB - iT\<rparr> else None)"
    by (simp only: findIntersection_eq Let_def iL_def iT_def iR_def iB_def)
  from assms have pos: "0 < iR - iL" "0 < iB - iT"
    unfolding eq by (simp_all split: if_splits)
  with assms have r3: "r3 = \<lparr>left = iL, top' = iT, width = iR - iL, height = iB - iT\<rparr>"
    unfolding eq by simp
  have "contains r3 p \<longleftrightarrow> iL \<le> x p \<and> x p < iR \<and> iT \<le> y p \<and> y p < iB"
    using pos by (simp add: contains_positive r3)
  also have "\<dots> \<longleftrightarrow> contains r1 p \<and> contains r2 p"
    unfolding contains_iff iL_def iT_def iR_def iB_def by (rule both_intervals)
  finally show ?thesis .
qed

lemma findIntersection_None:
  fixes r1 r2 :: "'a::linordered_idom Rect"
  shows "findIntersection r1 r2 = None \<longleftrightarrow> (\<forall>p. \<not> (contains r1 p \<and> contains r2 p))"
proof -
  define iL where "iL = max (min (left r1) (left r1 + width r1)) (min (left r2) (left r2 + width r2))"
  define iT where "iT = max (min (top' r1) (top' r1 + height r1)) (min (top' r2) (top' r2 + height r2))"
  define iR where "iR = min (max (left r1) (left r1 + width r1)) (max (left r2) (left r2 + width r2))"
  define iB where "iB = min (max (top' r1) (top' r1 + height r1)) (max (top' r2) (top' r2 + height r2))"
  have both: "contains r1 p \<and> contains r2 p \<longleftrightarrow> iL \<le> x p \<and> x p < iR \<and> iT \<le> y p \<and> y p < iB"
    for p
    unfolding contains_iff iL_def iT_def iR_def iB_def by (rule both_intervals [symmetric])
  have eq: "findIntersection r1 r2 =
      (if 0 < iR - iL \<and> 0 < iB - iT
       then Some \<lparr>left = iL, top' = iT, width = iR - iL, height = iB - iT\<rparr> else None)"
    by (simp only: findIntersection_eq Let_def iL_def iT_def iR_def iB_def)
  have none: "findIntersection r1 r2 = None \<longleftrightarrow> \<not> (iL < iR \<and> iT < iB)"
    unfolding eq by simp
  show ?thesis
  proof
    assume "findIntersection r1 r2 = None"
    with none have "\<not> (iL < iR \<and> iT < iB)" by simp
    then show "\<forall>p. \<not> (contains r1 p \<and> contains r2 p)"
      unfolding both by auto
  next
    assume h: "\<forall>p. \<not> (contains r1 p \<and> contains r2 p)"
    have "\<not> (iL < iR \<and> iT < iB)"
    proof
      assume "iL < iR \<and> iT < iB"
      then have "contains r1 \<lparr>x = iL, y = iT\<rparr> \<and> contains r2 \<lparr>x = iL, y = iT\<rparr>"
        unfolding both by simp
      with h show False by blast
    qed
    with none show "findIntersection r1 r2 = None" by simp
  qed
qed

text \<open>
  Where the coordinates form a linearly ordered ring, the test of the code is that the
  width and the height of the overlap are strictly positive, and an overlap of zero or
  negative area gives no value.
\<close>

lemma findIntersection_ring:
  fixes r1 r2 :: "'a::linordered_idom Rect"
  shows
  "(let interLeft = max (min (left r1) (left r1 + width r1)) (min (left r2) (left r2 + width r2));
        interTop = max (min (top' r1) (top' r1 + height r1)) (min (top' r2) (top' r2 + height r2));
        interRight = min (max (left r1) (left r1 + width r1)) (max (left r2) (left r2 + width r2));
        interBottom = min (max (top' r1) (top' r1 + height r1)) (max (top' r2) (top' r2 + height r2));
        w = interRight - interLeft;
        h = interBottom - interTop
    in findIntersection r1 r2 =
         (if 0 < w \<and> 0 < h
          then Some \<lparr>left = interLeft, top' = interTop, width = w, height = h\<rparr>
          else None) \<and>
       (w * h \<le> 0 \<longrightarrow> findIntersection r1 r2 = None)) \<and>
   findIntersection \<lparr>left = 0, top' = 0, width = 10, height = 10\<rparr>
       \<lparr>left = 5, top' = 5, width = 10, height = (10::'a)\<rparr> =
     Some \<lparr>left = 5, top' = 5, width = 5, height = 5\<rparr>"
proof -
  define iL where "iL = max (min (left r1) (left r1 + width r1)) (min (left r2) (left r2 + width r2))"
  define iT where "iT = max (min (top' r1) (top' r1 + height r1)) (min (top' r2) (top' r2 + height r2))"
  define iR where "iR = min (max (left r1) (left r1 + width r1)) (max (left r2) (left r2 + width r2))"
  define iB where "iB = min (max (top' r1) (top' r1 + height r1)) (max (top' r2) (top' r2 + height r2))"
  define w where "w = iR - iL"
  define h where "h = iB - iT"
  note defs = w_def h_def iL_def iT_def iR_def iB_def
  have eq: "findIntersection r1 r2 =
      (if 0 < w \<and> 0 < h
       then Some \<lparr>left = iL, top' = iT, width = w, height = h\<rparr> else None)"
    by (simp only: findIntersection_eq Let_def defs)
  have area: "w * h \<le> 0 \<longrightarrow> findIntersection r1 r2 = None"
  proof
    assume le: "w * h \<le> 0"
    have "\<not> (0 < w \<and> 0 < h)"
    proof
      assume "0 < w \<and> 0 < h"
      then have "0 < w * h" by simp
      with le show False by simp
    qed
    then show "findIntersection r1 r2 = None"
      unfolding eq by simp
  qed
  have ex: "findIntersection \<lparr>left = 0, top' = 0, width = 10, height = 10\<rparr>
       \<lparr>left = 5, top' = 5, width = 10, height = (10::'a)\<rparr> =
     Some \<lparr>left = 5, top' = 5, width = 5, height = 5\<rparr>"
    by (simp add: findIntersection_def lambda_min_def lambda_max_def)
  show ?thesis
    unfolding Let_def by (intro conjI eq [unfolded defs] area [unfolded defs] ex)
qed

text \<open>
  C7: for every coordinate type with a linear order, whatever its addition and
  subtraction do, \<open>findIntersection\<close> normalises both rectangles per axis and returns
  the overlap exactly when it extends strictly to the right and strictly downwards,
  with the differences of its bounds as width and height, and no value exactly when
  it does not; and the intersection of \<open>Rect((0,0),(10,10))\<close> with
  \<open>Rect((5,5),(10,10))\<close> is \<open>Rect((5,5),(5,5))\<close>.
\<close>

theorem findIntersection_normalized:
  fixes r1 r2 :: "'a::{linorder,plus,minus} Rect"
  shows
  "(let interLeft = max (min (left r1) (left r1 + width r1)) (min (left r2) (left r2 + width r2));
        interTop = max (min (top' r1) (top' r1 + height r1)) (min (top' r2) (top' r2 + height r2));
        interRight = min (max (left r1) (left r1 + width r1)) (max (left r2) (left r2 + width r2));
        interBottom = min (max (top' r1) (top' r1 + height r1)) (max (top' r2) (top' r2 + height r2))
    in findIntersection r1 r2 =
         (if interLeft < interRight \<and> interTop < interBottom
          then Some \<lparr>left = interLeft, top' = interTop,
                      width = interRight - interLeft, height = interBottom - interTop\<rparr>
          else None) \<and>
       (findIntersection r1 r2 = None \<longleftrightarrow>
          interRight \<le> interLeft \<or> interBottom \<le> interTop)) \<and>
   findIntersection \<lparr>left = 0, top' = 0, width = 10, height = 10\<rparr>
       \<lparr>left = 5, top' = 5, width = 10, height = (10::int)\<rparr> =
     Some \<lparr>left = 5, top' = 5, width = 5, height = 5\<rparr>"
proof -
  define iL where "iL = max (min (left r1) (left r1 + width r1)) (min (left r2) (left r2 + width r2))"
  define iT where "iT = max (min (top' r1) (top' r1 + height r1)) (min (top' r2) (top' r2 + height r2))"
  define iR where "iR = min (max (left r1) (left r1 + width r1)) (max (left r2) (left r2 + width r2))"
  define iB where "iB = min (max (top' r1) (top' r1 + height r1)) (max (top' r2) (top' r2 + height r2))"
  note defs = iL_def iT_def iR_def iB_def
  have eq: "findIntersection r1 r2 =
      (if iL < iR \<and> iT < iB
       then Some \<lparr>left = iL, top' = iT, width = iR - iL, height = iB - iT\<rparr> else None)"
    by (simp only: findIntersection_def lambda_min_eq lambda_max_eq Let_def defs)
  have none: "findIntersection r1 r2 = None \<longleftrightarrow> iR \<le> iL \<or> iB \<le> iT"
    unfolding eq by (auto simp: not_le)
  have ex: "findIntersection \<lparr>left = 0, top' = 0, width = 10, height = 10\<rparr>
       \<lparr>left = 5, top' = 5, width = 10, height = (10::int)\<rparr> =
     Some \<lparr>left = 5, top' = 5, width = 5, height = 5\<rparr>"
    by (simp add: findIntersection_def lambda_min_def lambda_max_def)
  show ?thesis
    unfolding Let_def by (intro conjI eq [unfolded defs] none [unfolded defs] ex)
qed

theorem findIntersection_normalized_witness:
  "findIntersection \<lparr>left = 0, top' = 0, width = 10, height = 10\<rparr>
       \<lparr>left = 10, top' = 2, width = - 4, height = (- 7::int)\<rparr> =
     Some \<lparr>left = 6, top' = 0, width = 4, height = 2\<rparr> \<and>
   findIntersection \<lparr>left = 0, top' = 0, width = 10, height = 10\<rparr>
       \<lparr>left = 10, top' = 0, width = 5, height = (5::int)\<rparr> = None"
  using findIntersection_normalized [of "\<lparr>left = 0, top' = 0, width = 10, height = 10\<rparr>"
      "\<lparr>left = 10, top' = 2, width = - 4, height = (- 7::int)\<rparr>"]
    findIntersection_normalized [of "\<lparr>left = 0, top' = 0, width = 10, height = 10\<rparr>"
      "\<lparr>left = 10, top' = 0, width = 5, height = (5::int)\<rparr>"]
  by (simp add: Let_def)

text \<open>
  C10: \<open>contains\<close> tests the half-open intervals between the normalised bounds of
  each axis, so no point on the normalised right edge or bottom edge is contained.
\<close>

theorem contains_half_open:
  fixes rect :: "'a::{linorder,plus} Rect"
  shows
  "(contains rect p \<longleftrightarrow>
      min (left rect) (left rect + width rect) \<le> x p \<and>
      x p < max (left rect) (left rect + width rect) \<and>
      min (top' rect) (top' rect + height rect) \<le> y p \<and>
      y p < max (top' rect) (top' rect + height rect)) \<and>
   \<not> contains rect \<lparr>x = max (left rect) (left rect + width rect), y = v\<rparr> \<and>
   \<not> contains rect \<lparr>x = u, y = max (top' rect) (top' rect + height rect)\<rparr>"
  by (simp add: contains_iff)

section \<open>Color: saturating operators\<close>

lemma clampedAdd_uint: "uint (clampedAdd p q) = min (uint p + uint q) 255"
proof -
  have "0 \<le> uint p + uint q" by simp
  then show ?thesis
    by (auto simp: clampedAdd_def Let_def uint_word_of_int take_bit_eq_mod min_def)
qed

lemma clampedSub_uint: "uint (clampedSub p q) = max (uint p - uint q) 0"
proof -
  have "uint p < 256" using uint_lt2p [of p] by simp
  moreover have "0 \<le> uint q" by simp
  ultimately have "uint p - uint q < 256" by linarith
  then show ?thesis
    by (auto simp: clampedSub_def Let_def uint_word_of_int take_bit_eq_mod max_def)
qed

lemma scaledMul_uint: "uint (scaledMul p q) = uint p * uint q div 255"
proof -
  define n where "n = uint p * uint q"
  have p: "0 \<le> uint p" "uint p \<le> 255" using uint_lt2p [of p] by simp_all
  have q: "0 \<le> uint q" "uint q \<le> 255" using uint_lt2p [of q] by simp_all
  have "uint p * uint q \<le> 255 * 255" using p q by (intro mult_mono) simp_all
  then have n: "0 \<le> n" "n \<le> 65025" using p q by (simp_all add: n_def)
  have m: "uint ((ucast p :: 16 word) * ucast q) = n"
    using n by (simp add: uint_word_ariths uint_up_ucast is_up n_def take_bit_eq_mod)
  have d: "uint (((ucast p :: 16 word) * ucast q) div 255) = n div 255"
    by (simp add: uint_div m)
  have "n div 255 \<le> 65025 div 255" using n(2) by (rule zdiv_mono1) simp
  then have "n div 255 < 256" "0 \<le> n div 255" using n(1) by simp_all
  then have "uint (ucast (((ucast p :: 16 word) * ucast q) div 255) :: 8 word) = n div 255"
    using d by (simp add: unsigned_ucast_eq take_bit_eq_mod)
  then show ?thesis
    by (simp add: scaledMul_def Let_def n_def)
qed

text \<open>
  C8: on every channel, addition is the sum clamped at 255, subtraction the difference
  clamped at 0, and multiplication the product divided by 255; and
  \<open>Color(250,0,0,255) + Color(10,0,0,0) = Color(255,0,0,255)\<close>.
\<close>

theorem Color_operators_saturate:
  "uint (r (Color_add c1 c2)) = min (uint (r c1) + uint (r c2)) 255 \<and>
   uint (g (Color_add c1 c2)) = min (uint (g c1) + uint (g c2)) 255 \<and>
   uint (b (Color_add c1 c2)) = min (uint (b c1) + uint (b c2)) 255 \<and>
   uint (a (Color_add c1 c2)) = min (uint (a c1) + uint (a c2)) 255 \<and>
   uint (r (Color_sub c1 c2)) = max (uint (r c1) - uint (r c2)) 0 \<and>
   uint (g (Color_sub c1 c2)) = max (uint (g c1) - uint (g c2)) 0 \<and>
   uint (b (Color_sub c1 c2)) = max (uint (b c1) - uint (b c2)) 0 \<and>
   uint (a (Color_sub c1 c2)) = max (uint (a c1) - uint (a c2)) 0 \<and>
   uint (r (Color_mul c1 c2)) = uint (r c1) * uint (r c2) div 255 \<and>
   uint (g (Color_mul c1 c2)) = uint (g c1) * uint (g c2) div 255 \<and>
   uint (b (Color_mul c1 c2)) = uint (b c1) * uint (b c2) div 255 \<and>
   uint (a (Color_mul c1 c2)) = uint (a c1) * uint (a c2) div 255 \<and>
   Color_add \<lparr>r = 250, g = 0, b = 0, a = 255\<rparr> \<lparr>r = 10, g = 0, b = 0, a = 0\<rparr> =
     \<lparr>r = 255, g = 0, b = 0, a = 255\<rparr>"
proof -
  have "Color_add \<lparr>r = 250, g = 0, b = 0, a = 255\<rparr> \<lparr>r = 10, g = 0, b = 0, a = 0\<rparr> =
     \<lparr>r = 255, g = 0, b = 0, a = 255\<rparr>"
    by (simp add: Color_add_def clampedAdd_def)
  then show ?thesis
    by (simp add: Color_add_def Color_sub_def Color_mul_def
        clampedAdd_uint clampedSub_uint scaledMul_uint)
qed

section \<open>The application: a failed texture load\<close>

lemma main_runs_until_closed:
  "main True [[\<lparr>type = KeyPressed\<rparr>], [\<lparr>type = Closed\<rparr>, \<lparr>type = MouseMoved\<rparr>], []] =
     Some (0, \<lparr>is_open = False, events = [],
               calls = [Clear Cyan, Draw, Display, Clear Cyan, Draw, Display]\<rparr>)"
  by (simp add: main_def RenderWindow_def close_def isOpen_def pollEvent_def
      clear_def draw_def display_def)

text \<open>
  C9: when the texture load fails, \<open>main\<close> closes the window before the loop; whatever
  events arrive, it returns 0 with no call of \<open>clear\<close>, \<open>draw\<close> or \<open>display\<close> made,
  and nothing else is done about the failure.
\<close>

theorem main_load_failure:
  "main False arrivals = Some (0, \<lparr>is_open = False, events = [], calls = []\<rparr>)"
  by (cases arrivals) (simp_all add: main_def RenderWindow_def close_def isOpen_def)

end
